theory Spec2Isabelle
  imports Main "HOL-Library.AList"
begin

section \<open>JavaScript values\<close>

text \<open>
  The module handles untyped JavaScript objects: the directive parsed out of a page, the
  route rules (typed \<^verbatim>\<open>false | Record<string, any>\<close>) and the options built from
  them with object spreads. They are modelled as a value type. Numbers are restricted to
  integers; functions, symbols and prototypes are left out.

  An object is a list of (key, value) bindings; the value of a key is its first binding
  (\<open>own_props\<close> drops any later binding of the same key), so every list denotes an object
  with one value per key.
\<close>

datatype jsval =
    JUndefined
  | JNull
  | JBool bool
  | JNum int
  | JStr string
  | JArr "jsval list"
  | JObj "(string \<times> jsval) list"

type_synonym props = "(string \<times> jsval) list"

datatype js_error = TypeError | Thrown string

text \<open>Decimal notation of an index, as the keys of an array are written.\<close>

fun digits :: "nat \<Rightarrow> string" where
  "digits n =
     (if n < 10 then [char_of (48 + n)]
      else digits (n div 10) @ [char_of (48 + n mod 10)])"

declare digits.simps [simp del]

text \<open>
  The own enumerable properties of a value, as \<^verbatim>\<open>for (const key in v)\<close>,
  \<^verbatim>\<open>Object.assign({}, v)\<close> and the spread \<^verbatim>\<open>{...v}\<close> see them: the bindings of an
  object, the indexed elements of an array or of a string, nothing for the other
  primitives.
\<close>

fun own_props :: "jsval \<Rightarrow> props" where
  "own_props (JObj ps) = AList.clearjunk ps"
| "own_props (JArr xs) = AList.clearjunk (zip (map digits [0..<length xs]) xs)"
| "own_props (JStr s) =
     AList.clearjunk (zip (map digits [0..<length s]) (map (\<lambda>c. JStr [c]) s))"
| "own_props _ = []"

text \<open>\<^verbatim>\<open>v[key]\<close> for an own property; \<^verbatim>\<open>undefined\<close> when the key is absent.\<close>

definition js_get :: "jsval \<Rightarrow> string \<Rightarrow> jsval" where
  "js_get v key = (case map_of (own_props v) key of Some x \<Rightarrow> x | None \<Rightarrow> JUndefined)"

text \<open>Truthiness, as \<^verbatim>\<open>!v\<close>, \<^verbatim>\<open>v || w\<close> and \<^verbatim>\<open>if (v)\<close> test it.\<close>

fun truthy :: "jsval \<Rightarrow> bool" where
  "truthy JUndefined = False"
| "truthy JNull = False"
| "truthy (JBool b) = b"
| "truthy (JNum n) = (n \<noteq> 0)"
| "truthy (JStr s) = (s \<noteq> [])"
| "truthy (JArr _) = True"
| "truthy (JObj _) = True"

definition js_or :: "jsval \<Rightarrow> jsval \<Rightarrow> jsval" where
  "js_or v w = (if truthy v then v else w)"

text \<open>The conversion to a string that a template literal applies.\<close>

fun join_with :: "string \<Rightarrow> string list \<Rightarrow> string" where
  "join_with sep [] = []"
| "join_with sep [x] = x"
| "join_with sep (x # y # zs) = x @ sep @ join_with sep (y # zs)"

fun toString :: "jsval \<Rightarrow> string" where
  "toString JUndefined = ''undefined''"
| "toString JNull = ''null''"
| "toString (JBool b) = (if b then ''true'' else ''false'')"
| "toString (JNum n) = (if n < 0 then ''-'' @ digits (nat (- n)) else digits (nat n))"
| "toString (JStr s) = s"
| "toString (JArr xs) =
     join_with '','' (map (\<lambda>x. if x = JNull \<or> x = JUndefined then [] else toString x) xs)"
| "toString (JObj _) = ''[object Object]''"

text \<open>
  An object spread \<^verbatim>\<open>{...target, ...source}\<close>: every own property of the source is
  written over the target, \<^verbatim>\<open>undefined\<close> values included.
\<close>

definition obj_assign :: "props \<Rightarrow> props \<Rightarrow> props" where
  "obj_assign target source = foldl (\<lambda>object (key, v). AList.update key v object) target source"

section \<open>The merge of the matched route rules: defu\<close>

text \<open>
  \<^verbatim>\<open>defu\<close> (package defu 6.1.2, a dependency of the module) is not part of the
  repository. Its behaviour is the library's: \<^verbatim>\<open>defu(object, ...defaults)\<close> reduces its
  arguments from the left with \<^verbatim>\<open>_defu(p, c)\<close>, which copies \<^verbatim>\<open>c\<close> and then writes
  every property of \<^verbatim>\<open>p\<close> over the copy, so the leftmost argument that defines a key
  has priority. A property of \<^verbatim>\<open>p\<close> that is \<^verbatim>\<open>null\<close> or \<^verbatim>\<open>undefined\<close> is skipped, two
  arrays are concatenated, two objects are merged recursively.
\<close>

fun isObject :: "jsval \<Rightarrow> bool" where
  "isObject (JObj _) = True"
| "isObject (JArr _) = True"
| "isObject _ = False"

lemma clearjunk_mem: "(k, v) \<in> set (AList.clearjunk ps) \<Longrightarrow> (k, v) \<in> set ps"
proof -
  assume "(k, v) \<in> set (AList.clearjunk ps)"
  then have "map_of (AList.clearjunk ps) k = Some v"
    by simp
  then have "map_of ps k = Some v"
    by (simp add: AList.map_of_clearjunk)
  then show ?thesis
    by (rule map_of_SomeD)
qed

lemma size_obj_member: "(k, v) \<in> set ps \<Longrightarrow> size v < size (JObj ps)"
  by (induction ps) auto

lemma size_arr_member: "v \<in> set xs \<Longrightarrow> size v < size (JArr xs)"
  by (induction xs) auto

lemma own_props_size:
  "(k, v) \<in> set (own_props b) \<Longrightarrow> isObject v \<Longrightarrow> size v < size b"
proof (cases b)
  case (JObj ps)
  assume "(k, v) \<in> set (own_props b)"
  with JObj have "(k, v) \<in> set ps"
    by (auto dest!: clearjunk_mem)
  then have "size v < size (JObj ps)"
    by (rule size_obj_member)
  with JObj show ?thesis
    by simp
next
  case (JArr xs)
  assume "(k, v) \<in> set (own_props b)"
  with JArr have "(k, v) \<in> set (zip (map digits [0..<length xs]) xs)"
    by (auto dest!: clearjunk_mem)
  then have "v \<in> set xs"
    by (rule set_zip_rightD)
  then have "size v < size (JArr xs)"
    by (rule size_arr_member)
  with JArr show ?thesis
    by simp
next
  case (JStr s)
  assume "(k, v) \<in> set (own_props b)" and "isObject v"
  with JStr show ?thesis
    by (auto dest!: clearjunk_mem set_zip_rightD)
qed auto

text \<open>
  One pass of \<^verbatim>\<open>_defu\<close>'s loop body, for the property \<^verbatim>\<open>key: value\<close> of the base
  object, given the merge of two nested objects.
\<close>

definition defu_step :: "(jsval \<Rightarrow> jsval \<Rightarrow> jsval) \<Rightarrow> props \<Rightarrow> string \<Rightarrow> jsval \<Rightarrow> props" where
  "defu_step rec object key v =
     (if key = ''__proto__'' \<or> key = ''constructor'' then object
      else if v = JNull \<or> v = JUndefined then object
      else (case (v, map_of object key) of
              (JArr vs, Some (JArr os)) \<Rightarrow> AList.update key (JArr (vs @ os)) object
            | (_, Some ov) \<Rightarrow>
                if isObject v \<and> isObject ov
                then AList.update key (rec v ov) object
                else AList.update key v object
            | (_, None) \<Rightarrow> AList.update key v object))"

lemma defu_step_cong [fundef_cong]:
  "(\<And>ov. isObject v \<Longrightarrow> isObject ov \<Longrightarrow> f v ov = g v ov) \<Longrightarrow>
   object = object' \<Longrightarrow> key = key' \<Longrightarrow> v = v' \<Longrightarrow>
   defu_step f object key v = defu_step g object' key' v'"
  by (auto simp: defu_step_def split: jsval.splits option.splits)

function defu_rec :: "jsval \<Rightarrow> jsval \<Rightarrow> jsval" where
  "defu_rec baseObject defaults =
     JObj (foldl (\<lambda>object (key, v). defu_step defu_rec object key v)
            (if isObject defaults then own_props defaults else [])
            (own_props baseObject))"
  by pat_completeness auto
termination
  by (relation "measure (\<lambda>(b, d). size b)") (auto dest: own_props_size)

declare defu_rec.simps [simp del]

text \<open>\<^verbatim>\<open>defu(...arguments)\<close>: the reduction from the left, starting from \<^verbatim>\<open>{}\<close>.\<close>

definition defu :: "jsval list \<Rightarrow> jsval" where
  "defu arguments = foldl defu_rec (JObj []) arguments"

text \<open>
  Notions for stating what the merge does to one field \<open>k\<close> of the \<^verbatim>\<open>ogImage\<close>
  override. A value is nullish when \<^verbatim>\<open>_defu\<close> skips it, primitive when it is neither
  nullish nor an object or array. An override \<open>x\<close> sets the field to \<open>v\<close> when it is an
  object whose property \<open>k\<close> is \<open>v\<close>; it leaves the field open when it is absent or
  nullish itself, or an object whose property \<open>k\<close> is absent or nullish.
\<close>

definition nullish :: "jsval \<Rightarrow> bool" where
  "nullish v = (v = JNull \<or> v = JUndefined)"



definition leaves_field :: "string \<Rightarrow> jsval \<Rightarrow> bool" where
  "leaves_field k x =
     (case x of
        JUndefined \<Rightarrow> True
      | JNull \<Rightarrow> True
      | JObj gs \<Rightarrow> nullish (js_get x k)
      | _ \<Rightarrow> False)"



section \<open>String operations\<close>

text \<open>\<^verbatim>\<open>s.includes(m)\<close>, \<^verbatim>\<open>s.endsWith(t)\<close> and \<^verbatim>\<open>s.replace(pat, rep)\<close> with a
  string pattern, which replaces the first occurrence only.\<close>

fun includes_str :: "string \<Rightarrow> string \<Rightarrow> bool" where
  "includes_str [] m = (m = [])"
| "includes_str (c # cs) m = (take (length m) (c # cs) = m \<or> includes_str cs m)"

definition ends_with :: "string \<Rightarrow> string \<Rightarrow> bool" where
  "ends_with s t = (length t \<le> length s \<and> drop (length s - length t) s = t)"

fun replace_first :: "string \<Rightarrow> string \<Rightarrow> string \<Rightarrow> string" where
  "replace_first pat rep [] = (if pat = [] then rep else [])"
| "replace_first pat rep (c # cs) =
     (if take (length pat) (c # cs) = pat then rep @ drop (length pat) (c # cs)
      else c # replace_first pat rep cs)"

text \<open>\<^verbatim>\<open>s.split(sep)\<close> for a string separator: \<open>acc\<close> is the piece being read.\<close>

function split_from :: "string \<Rightarrow> string \<Rightarrow> string \<Rightarrow> string list" where
  "split_from sep acc s =
     (if s = [] then [acc]
      else if sep \<noteq> [] \<and> take (length sep) s = sep
           then acc # split_from sep [] (drop (length sep) s)
      else if sep = [] \<and> acc \<noteq> [] then acc # split_from sep [hd s] (tl s)
      else split_from sep (acc @ [hd s]) (tl s))"
  by pat_completeness auto
termination
  by (relation "measure (\<lambda>(sep, acc, s). length s)") auto

declare split_from.simps [simp del]

definition split_str :: "string \<Rightarrow> string \<Rightarrow> string list" where
  "split_str s sep = (if s = [] \<and> sep = [] then [] else split_from sep [] s)"

text \<open>\<^verbatim>\<open>xs[i]\<close> on an array of strings: \<^verbatim>\<open>undefined\<close> out of range.\<close>

definition at_index :: "string list \<Rightarrow> nat \<Rightarrow> jsval" where
  "at_index xs i = (if i < length xs then JStr (xs ! i) else JUndefined)"

text \<open>\<^verbatim>\<open>s.trim()\<close>, for the white space and line terminators of ASCII.\<close>

definition is_space :: "char \<Rightarrow> bool" where
  "is_space c = (c \<in> set [CHR '' '', CHR 0x09, CHR 0x0A, CHR 0x0B, CHR 0x0C, CHR 0x0D])"

definition trim :: "string \<Rightarrow> string" where
  "trim s = rev (dropWhile is_space (rev (dropWhile is_space s)))"

section \<open>The render pass: the prerender:generate hook\<close>

text \<open>
  The render context \<^verbatim>\<open>ctx\<close> that Nitro passes to the hook for one page: its route, its
  rendered contents and the name of its output file (the last two are optional in
  Nitro's type).
\<close>

record render_ctx =
  route :: string
  contents :: "string option"
  fileName :: "string option"

text \<open>
  The effective options of a page, \<^verbatim>\<open>OgImageOptions\<close>: the merged properties and the
  render context, which the object literal stores last under the key \<^verbatim>\<open>ctx\<close>. The
  source keeps a reference to the context; the model keeps its value after the hook.
\<close>

record og_options =
  og_fields :: props
  ctx :: render_ctx

text \<open>
  What the module takes from outside: the Nuxt options, the matcher built by radix3 over
  the configured route rules (\<open>matchAll\<close> returns the rules that match a path, each an
  object, in the matcher's order), and the two helpers that the module
  imports from \<^verbatim>\<open>./utils\<close>. \<open>extractOgImageOptions\<close> returns the parsed payload or a
  falsy value, or throws on a payload it cannot parse; \<open>stripOgImageOptions\<close> returns
  the markup without the marker.

  The second half is what \<^verbatim>\<open>captureScreenshots\<close> calls: the output chunks of the
  preview server, the browser launch, and per queue index the results of the capture
  and of the file write (\<^verbatim>\<open>mkdirp\<close> has no entry: its error is caught by an empty
  \<^verbatim>\<open>catch\<close>, so its result is never looked at). \<open>browser_close\<close> is the
  result of \<^verbatim>\<open>browser.close()\<close>, the error if it rejects. A capture and a write return
  or throw; a capture that never returns is not modelled. \<open>joinURL\<close> (ufo) and
  \<open>relative\<close> (pathe) are library functions on paths.
\<close>

datatype proc_event = StdoutData string | StdoutEnd | ProcExit

datatype browser_launch = BrowserOk | BrowserNull | BrowserThrows js_error

record env =
  dev :: bool
  nuxt_generate :: bool
  publicDir :: string
  config_defaults :: jsval
  matchAll :: "string \<Rightarrow> props list"
  extractOgImageOptions :: "string \<Rightarrow> js_error + jsval"
  stripOgImageOptions :: "string \<Rightarrow> string"
  preview_stdout :: "proc_event list option"
  createBrowser :: browser_launch
  browser_close :: "js_error option"
  screenshot :: "nat \<Rightarrow> string \<Rightarrow> og_options \<Rightarrow> js_error + string"
  writeFile :: "nat \<Rightarrow> string \<Rightarrow> string \<Rightarrow> js_error option"
  joinURL :: "string \<Rightarrow> string \<Rightarrow> string"
  relative :: "string \<Rightarrow> string \<Rightarrow> string"

text \<open>
  \<^verbatim>\<open>defu({}, ..._routeRulesMatcher.matchAll(ctx.route).reverse())\<close>: the merged route
  rules of a path.
\<close>

definition routeRules :: "env \<Rightarrow> string \<Rightarrow> jsval" where
  "routeRules e path = defu (JObj [] # rev (map JObj (matchAll e path)))"









text \<open>
  The object literal
  \<^verbatim>\<open>{ path: ctx.route, ...extractedOptions, ...(routeRules.ogImage || {}), ctx }\<close>.
\<close>

definition build_options :: "render_ctx \<Rightarrow> jsval \<Rightarrow> jsval \<Rightarrow> og_options" where
  "build_options c extractedOptions rules =
     \<lparr> og_fields =
         AList.delete ''ctx''
           (obj_assign
              (obj_assign [(''path'', JStr (route c))] (own_props extractedOptions))
              (own_props (js_or (js_get rules ''ogImage'') (JObj [])))),
       ctx = c \<rparr>"

text \<open>\<^verbatim>\<open>options.key\<close> for a key other than \<^verbatim>\<open>ctx\<close>.\<close>

definition opt_get :: "og_options \<Rightarrow> string \<Rightarrow> jsval" where
  "opt_get options key = (case map_of (og_fields options) key of Some x \<Rightarrow> x | None \<Rightarrow> JUndefined)"

text \<open>
  The state after the hook has run for one page: the render context (whose contents the
  hook may have rewritten), the queue, and the error if the hook threw.
\<close>

record hook_result =
  ctx_after :: render_ctx
  screenshotQueue :: "og_options list"
  thrown :: "js_error option"

definition prerender_generate :: "env \<Rightarrow> render_ctx \<Rightarrow> og_options list \<Rightarrow> hook_result" where
  "prerender_generate e c queue =
     (if includes_str (route c) ''.'' \<or> ends_with (route c) ''__og_image__/html''
      then \<lparr> ctx_after = c, screenshotQueue = queue, thrown = None \<rparr>
      else case contents c of
        None \<Rightarrow> \<lparr> ctx_after = c, screenshotQueue = queue, thrown = None \<rparr>
      | Some html \<Rightarrow>
          if html = [] then \<lparr> ctx_after = c, screenshotQueue = queue, thrown = None \<rparr>
          else case extractOgImageOptions e html of
            Inl err \<Rightarrow> \<lparr> ctx_after = c, screenshotQueue = queue, thrown = Some err \<rparr>
          | Inr extractedOptions \<Rightarrow>
              let c' = c \<lparr> contents := Some (stripOgImageOptions e html) \<rparr>;
                  rules = routeRules e (route c)
              in if \<not> truthy extractedOptions \<or> js_get rules ''ogImage'' = JBool False
                 then \<lparr> ctx_after = c', screenshotQueue = queue, thrown = None \<rparr>
                 else
                   let options = build_options c' extractedOptions rules
                   in if (nuxt_generate e \<or> truthy (opt_get options ''static''))
                         \<and> opt_get options ''provider'' = JStr ''browser''
                      then \<lparr> ctx_after = c', screenshotQueue = queue @ [options], thrown = None \<rparr>
                      else \<lparr> ctx_after = c', screenshotQueue = queue, thrown = None \<rparr>)"

section \<open>The batch: captureScreenshots\<close>

text \<open>
  What a run does to the outside is recorded as a trace of effects, in the order they
  happen. A report line keeps its colour (red for a failed entry), its glyph (the last
  entry has its own) and the relative path of the image; the elapsed time and the
  percentage, which come from the clock and from floating-point arithmetic, are left
  out.
\<close>

datatype effect =
    Spawn string "string list"
  | CreateBrowser
  | LoggerInfo string
  | Screenshot string og_options
  | Mkdirp string
  | WriteFile string string
  | ConsoleError js_error
  | ReportLine bool bool string
  | LogBrowserFailed
  | BrowserClose
  | Kill

text \<open>
  The state of the promise that \<^verbatim>\<open>captureScreenshots\<close> awaits for the server. Its
  executor takes \<^verbatim>\<open>resolve\<close> only and listens to the \<^verbatim>\<open>data\<close> events of the standard
  output only: the first chunk that includes the marker resolves it with
  \<^verbatim>\<open>data.toString().split('Accepting connections at ')[1]\<close>; the end of the stream and
  the exit of the process have no listener.
\<close>

datatype 'a promise = Pending | Resolved 'a | Rejected js_error

fun wait_ready :: "proc_event list \<Rightarrow> jsval promise" where
  "wait_ready [] = Pending"
| "wait_ready (StdoutData d # evs) =
     (if includes_str d ''Accepting connections at''
      then Resolved (at_index (split_str d ''Accepting connections at '') 1)
      else wait_ready evs)"
| "wait_ready (StdoutEnd # evs) = wait_ready evs"
| "wait_ready (ProcExit # evs) = wait_ready evs"

text \<open>\<^verbatim>\<open>previewProcess.stdout?.on('data', ...)\<close>: without a standard output no listener is
  registered.\<close>

definition server_ready :: "env \<Rightarrow> jsval promise" where
  "server_ready e = (case preview_stdout e of None \<Rightarrow> Pending | Some evs \<Rightarrow> wait_ready evs)"

text \<open>The options of one capture:
  \<^verbatim>\<open>{ ...(config.defaults || {}), ...(entry || {}) }\<close>.\<close>

definition screenshot_options :: "env \<Rightarrow> og_options \<Rightarrow> og_options" where
  "screenshot_options e entry =
     \<lparr> og_fields =
         AList.delete ''ctx''
           (obj_assign (own_props (js_or (config_defaults e) (JObj []))) (og_fields entry)),
       ctx = ctx entry \<rparr>"

definition entry_dirname :: "env \<Rightarrow> string \<Rightarrow> string" where
  "entry_dirname e fname =
     joinURL e (publicDir e) (replace_first ''index.html'' [] fname @ ''__og_image__/'')"

definition entry_filename :: "env \<Rightarrow> string \<Rightarrow> string" where
  "entry_filename e fname = joinURL e (entry_dirname e fname) ''/og.png''"

definition entry_url :: "string \<Rightarrow> og_options \<Rightarrow> string" where
  "entry_url host entry = host @ toString (opt_get entry ''path'')"

text \<open>
  The inner \<^verbatim>\<open>try\<close> of the loop body for the entry of index \<open>k\<close>: the capture, the
  directory creation (whose error is dropped) and the write. The result is the effects
  and \<^verbatim>\<open>hasError\<close>.
\<close>

definition capture_entry :: "env \<Rightarrow> string \<Rightarrow> nat \<Rightarrow> og_options \<Rightarrow> string \<Rightarrow> effect list \<times> bool" where
  "capture_entry e host k entry fname =
     (let url = entry_url host entry;
          shot = Screenshot url (screenshot_options e entry)
      in case screenshot e k url (screenshot_options e entry) of
           Inl err \<Rightarrow> ([shot, ConsoleError err], True)
         | Inr imgBuffer \<Rightarrow>
             (case writeFile e k (entry_filename e fname) imgBuffer of
                Some err \<Rightarrow>
                  ([shot, Mkdirp (entry_dirname e fname),
                    WriteFile (entry_filename e fname) imgBuffer, ConsoleError err], True)
              | None \<Rightarrow>
                  ([shot, Mkdirp (entry_dirname e fname),
                    WriteFile (entry_filename e fname) imgBuffer], False)))"

text \<open>
  \<^verbatim>\<open>for (const k in screenshotQueue)\<close>: the entries from index \<open>k\<close> on, of a queue of
  \<open>n\<close> entries. \<^verbatim>\<open>entry.ctx.fileName.replace(...)\<close> is outside the inner \<^verbatim>\<open>try\<close>: on a
  context without a file name it throws a TypeError that leaves the loop.
\<close>

fun drain :: "env \<Rightarrow> string \<Rightarrow> nat \<Rightarrow> nat \<Rightarrow> og_options list \<Rightarrow> effect list \<times> js_error option" where
  "drain e host n k [] = ([], None)"
| "drain e host n k (entry # rest) =
     (case fileName (ctx entry) of
        None \<Rightarrow> ([], Some TypeError)
      | Some fname \<Rightarrow>
          (let (effs, hasError) = capture_entry e host k entry fname;
               line = ReportLine hasError (k + 1 = n) (relative e (publicDir e) (entry_filename e fname));
               (more, err) = drain e host n (Suc k) rest
           in (effs @ [line] @ more, err)))"

text \<open>
  The body of the outer \<^verbatim>\<open>try\<close> once the promise has resolved with \<open>v\<close>:
  \<^verbatim>\<open>.trim()\<close> (a TypeError on a value that is not a string), the browser launch and the
  loop. The result is the effects, whether a browser was obtained, and the error that
  reaches the outer \<^verbatim>\<open>catch\<close>.
\<close>

definition try_body :: "env \<Rightarrow> og_options list \<Rightarrow> jsval \<Rightarrow> effect list \<times> bool \<times> js_error option" where
  "try_body e queue v =
     (case v of
        JStr s \<Rightarrow>
          (case createBrowser e of
             BrowserThrows err \<Rightarrow> ([CreateBrowser], False, Some err)
           | BrowserNull \<Rightarrow> ([CreateBrowser, LogBrowserFailed], False, None)
           | BrowserOk \<Rightarrow>
               (let (effs, err) = drain e (trim s) (length queue) 0 queue
                in ([CreateBrowser,
                     LoggerInfo (''Pre-rendering '' @ digits (length queue) @ '' og:image screenshots...'')]
                    @ effs, True, err)))
      | _ \<Rightarrow> ([], False, Some TypeError))"

text \<open>
  \<^verbatim>\<open>finally { await browser?.close(); previewProcess.kill() }\<close>: the browser, if one was
  obtained, is closed first. When the close rejects, the error leaves the block before
  the kill. (\<^verbatim>\<open>kill()\<close> sends a signal and returns a flag; it is taken not to throw.)
\<close>

definition finally_block :: "env \<Rightarrow> bool \<Rightarrow> effect list \<times> js_error option" where
  "finally_block e browser =
     (if browser
      then (case browser_close e of
              None \<Rightarrow> ([BrowserClose, Kill], None)
            | Some err \<Rightarrow> ([BrowserClose], Some err))
      else ([Kill], None))"

text \<open>\<^verbatim>\<open>catch (e) { console.error(e) }\<close> followed by the \<^verbatim>\<open>finally\<close> block, after the
  body of the \<^verbatim>\<open>try\<close> has given \<open>r\<close>: the effects and the error that leaves the statement.\<close>

definition catch_finally :: "env \<Rightarrow> effect list \<times> bool \<times> js_error option \<Rightarrow> effect list \<times> js_error option" where
  "catch_finally e r =
     (case r of (effs, browser, err) \<Rightarrow>
        (effs @ (case err of None \<Rightarrow> [] | Some x \<Rightarrow> [ConsoleError x])
              @ fst (finally_block e browser),
         snd (finally_block e browser)))"

text \<open>
  One call of \<^verbatim>\<open>captureScreenshots\<close> on the queue: the effects, the queue afterwards, and
  how the call ends. It is suspended for ever when the awaited promise stays pending,
  before the \<^verbatim>\<open>finally\<close> block and before the queue is reset. It fails when the
  \<^verbatim>\<open>finally\<close> block throws: \<^verbatim>\<open>screenshotQueue = []\<close>, the statement after the
  \<^verbatim>\<open>try\<close>, is then not reached and the queue is kept.
\<close>

datatype call_outcome = Fulfilled | Failed js_error | Suspended

record run =
  trace :: "effect list"
  queue_after :: "og_options list"
  outcome :: call_outcome

definition settle :: "env \<Rightarrow> og_options list \<Rightarrow> effect list \<times> js_error option \<Rightarrow> run" where
  "settle e queue r =
     (case r of
        (effs, None) \<Rightarrow>
          \<lparr> trace = Spawn ''npx'' [''serve'', publicDir e] # effs, queue_after = [],
            outcome = Fulfilled \<rparr>
      | (effs, Some err) \<Rightarrow>
          \<lparr> trace = Spawn ''npx'' [''serve'', publicDir e] # effs, queue_after = queue,
            outcome = Failed err \<rparr>)"

definition captureScreenshots :: "env \<Rightarrow> og_options list \<Rightarrow> run" where
  "captureScreenshots e queue =
     (if length queue = 0 then \<lparr> trace = [], queue_after = queue, outcome = Fulfilled \<rparr>
      else
        (case server_ready e of
           Pending \<Rightarrow>
             \<lparr> trace = [Spawn ''npx'' [''serve'', publicDir e]], queue_after = queue,
               outcome = Suspended \<rparr>
         | Rejected err \<Rightarrow> settle e queue (catch_finally e ([], False, Some err))
         | Resolved v \<Rightarrow> settle e queue (catch_finally e (try_body e queue v))))"

text \<open>
  The two hooks that call \<^verbatim>\<open>captureScreenshots\<close>, \<^verbatim>\<open>rollup:before\<close> and \<^verbatim>\<open>close\<close>.
  In development mode neither is registered.
\<close>

datatype nitro_hook = RollupBefore | Close

definition call_hook :: "env \<Rightarrow> nitro_hook \<Rightarrow> og_options list \<Rightarrow> run" where
  "call_hook e h queue =
     (if dev e then \<lparr> trace = [], queue_after = queue, outcome = Fulfilled \<rparr>
      else case h of
             RollupBefore \<Rightarrow> captureScreenshots e queue
           | Close \<Rightarrow> captureScreenshots e queue)"

text \<open>Projections of a trace.\<close>

fun captures :: "effect list \<Rightarrow> (string \<times> og_options) list" where
  "captures [] = []"
| "captures (Screenshot url opts # t) = (url, opts) # captures t"
| "captures (x # t) = captures t"

fun report_lines :: "effect list \<Rightarrow> (bool \<times> bool \<times> string) list" where
  "report_lines [] = []"
| "report_lines (ReportLine failed final file # t) = (failed, final, file) # report_lines t"
| "report_lines (x # t) = report_lines t"

text \<open>The effects that create or release the server process and the browser session.\<close>

fun lifecycle :: "effect \<Rightarrow> bool" where
  "lifecycle (Spawn cmd args) = True"
| "lifecycle CreateBrowser = True"
| "lifecycle BrowserClose = True"
| "lifecycle Kill = True"
| "lifecycle _ = False"

fun is_spawn :: "effect \<Rightarrow> bool" where
  "is_spawn (Spawn cmd args) = True"
| "is_spawn _ = False"

text \<open>The chunks that the \<^verbatim>\<open>data\<close> listener of the standard output receives.\<close>

fun data_chunks :: "proc_event list \<Rightarrow> string list" where
  "data_chunks [] = []"
| "data_chunks (StdoutData d # evs) = d # data_chunks evs"
| "data_chunks (StdoutEnd # evs) = data_chunks evs"
| "data_chunks (ProcExit # evs) = data_chunks evs"

section \<open>A sample site\<close>

text \<open>
  A small environment on which the theorems below are instantiated: route rules for two
  paths, an extractor that finds a directive in pages carrying \<^verbatim>\<open><og>\<close> and throws on
  one malformed page, a preview server that reports its address, and a capture that
  fails for the entry of index 1.
\<close>

definition sample_env :: env where
  "sample_env =
     \<lparr> dev = False,
       nuxt_generate = False,
       publicDir = ''/out'',
       config_defaults = JObj [(''width'', JNum 1200)],
       matchAll = (\<lambda>path.
         if path = ''/hidden'' then [[(''ogImage'', JBool False)]]
         else if path = ''/shop''
           then [[(''ogImage'', JObj [(''provider'', JStr ''browser''), (''static'', JBool True)])]]
         else []),
       extractOgImageOptions = (\<lambda>html.
         if html = ''<og>{</og><p>x</p>'' then Inl (Thrown ''SyntaxError'')
         else if includes_str html ''<og>''
           then Inr (JObj [(''provider'', JStr ''browser''), (''static'', JBool True)])
         else Inr (JBool False)),
       stripOgImageOptions = (\<lambda>html. ''<p>x</p>''),
       preview_stdout = Some [StdoutData ''INFO: Accepting connections at http://localhost:3000''],
       createBrowser = BrowserOk,
       browser_close = None,
       screenshot = (\<lambda>k url opts. if k = 1 then Inl (Thrown ''navigation'') else Inr ''png''),
       writeFile = (\<lambda>k file img. None),
       joinURL = (\<lambda>base input. base @ input),
       relative = (\<lambda>from to. drop (length from) to) \<rparr>"

definition sample_page :: "string \<Rightarrow> string \<Rightarrow> render_ctx" where
  "sample_page path html =
     \<lparr> route = path, contents = Some html, fileName = Some (path @ ''/index.html'') \<rparr>"

definition sample_entry :: "string \<Rightarrow> og_options" where
  "sample_entry path =
     \<lparr> og_fields = [(''path'', JStr path), (''provider'', JStr ''browser'')],
       ctx = sample_page path ''<p>x</p>'' \<rparr>"

definition sample_queue :: "og_options list" where
  "sample_queue = [sample_entry ''/a'', sample_entry ''/b'', sample_entry ''/c'']"

text \<open>An entry whose render context has no file name.\<close>

definition nameless_entry :: "string \<Rightarrow> og_options" where
  "nameless_entry path =
     \<lparr> og_fields = [(''path'', JStr path), (''provider'', JStr ''browser'')],
       ctx = \<lparr> route = path, contents = Some ''<p>x</p>'', fileName = None \<rparr> \<rparr>"



section \<open>The drain loop and the trace of a run\<close>

text \<open>Facts about the loop that the theorems on the batch share.\<close>

lemma captures_append: "captures (a @ b) = captures a @ captures b"
  by (induction a rule: captures.induct) simp_all

lemma report_lines_append: "report_lines (a @ b) = report_lines a @ report_lines b"
  by (induction a rule: report_lines.induct) simp_all

lemma capture_entry_captures:
  "captures (fst (capture_entry e host k entry fname)) = [(entry_url host entry, screenshot_options e entry)]"
  by (simp add: capture_entry_def Let_def split: sum.splits option.splits)

lemma capture_entry_report_lines:
  "report_lines (fst (capture_entry e host k entry fname)) = []"
  by (simp add: capture_entry_def Let_def split: sum.splits option.splits)

lemma capture_entry_lifecycle:
  "filter lifecycle (fst (capture_entry e host k entry fname)) = []"
  by (simp add: capture_entry_def Let_def split: sum.splits option.splits)

lemma capture_entry_hasError:
  "snd (capture_entry e host k entry fname) =
     (case screenshot e k (entry_url host entry) (screenshot_options e entry) of
        Inl err \<Rightarrow> True
      | Inr img \<Rightarrow> writeFile e k (entry_filename e fname) img \<noteq> None)"
  by (simp add: capture_entry_def Let_def split: sum.splits option.splits)

lemma drain_Cons:
  "fileName (ctx entry) = Some fname \<Longrightarrow>
   drain e host n k (entry # rest) =
     (fst (capture_entry e host k entry fname)
        @ [ReportLine (snd (capture_entry e host k entry fname)) (k + 1 = n)
             (relative e (publicDir e) (entry_filename e fname))]
        @ fst (drain e host n (Suc k) rest),
      snd (drain e host n (Suc k) rest))"
  by (simp split: prod.splits)

lemma drain_lifecycle: "filter lifecycle (fst (drain e host n k rest)) = []"
proof (induction rest arbitrary: k)
  case Nil
  then show ?case by simp
next
  case (Cons entry rest)
  show ?case
  proof (cases "fileName (ctx entry)")
    case None
    then show ?thesis by simp
  next
    case (Some fname)
    then show ?thesis
      using Cons by (simp only: drain_Cons) (simp add: capture_entry_lifecycle)
  qed
qed

lemma drain_no_error:
  "\<forall>entry\<in>set rest. fileName (ctx entry) \<noteq> None \<Longrightarrow> snd (drain e host n k rest) = None"
proof (induction rest arbitrary: k)
  case Nil
  then show ?case by simp
next
  case (Cons entry rest)
  then obtain fname where f: "fileName (ctx entry) = Some fname"
    by auto
  from Cons have "snd (drain e host n (Suc k) rest) = None"
    by simp
  then show ?case
    by (simp only: drain_Cons [OF f]) simp
qed

lemma drain_captures:
  "\<forall>entry\<in>set rest. fileName (ctx entry) \<noteq> None \<Longrightarrow>
   captures (fst (drain e host n k rest)) =
     map (\<lambda>entry. (entry_url host entry, screenshot_options e entry)) rest"
proof (induction rest arbitrary: k)
  case Nil
  then show ?case by simp
next
  case (Cons entry rest)
  then obtain fname where f: "fileName (ctx entry) = Some fname"
    by auto
  from Cons have ih: "captures (fst (drain e host n (Suc k) rest)) =
     map (\<lambda>entry. (entry_url host entry, screenshot_options e entry)) rest"
    by simp
  show ?case
    by (simp only: drain_Cons [OF f]) (simp add: captures_append capture_entry_captures ih)
qed

lemma drain_report_lines_Cons:
  "fileName (ctx entry) = Some fname \<Longrightarrow>
   report_lines (fst (drain e host n k (entry # rest))) =
     (snd (capture_entry e host k entry fname), Suc k = n,
      relative e (publicDir e) (entry_filename e fname))
     # report_lines (fst (drain e host n (Suc k) rest))"
  by (simp only: drain_Cons) (simp add: report_lines_append capture_entry_report_lines)

lemma drain_report_lines:
  "\<forall>entry\<in>set rest. fileName (ctx entry) \<noteq> None \<Longrightarrow>
   length (report_lines (fst (drain e host n k rest))) = length rest \<and>
   (\<forall>i<length rest. report_lines (fst (drain e host n k rest)) ! i =
      (snd (capture_entry e host (k + i) (rest ! i) (the (fileName (ctx (rest ! i))))),
       Suc (k + i) = n,
       relative e (publicDir e) (entry_filename e (the (fileName (ctx (rest ! i)))))))"
proof (induction rest arbitrary: k)
  case Nil
  then show ?case by simp
next
  case (Cons entry rest)
  then obtain fname where f: "fileName (ctx entry) = Some fname"
    by auto
  from Cons have ih: "length (report_lines (fst (drain e host n (Suc k) rest))) = length rest \<and>
   (\<forall>i<length rest. report_lines (fst (drain e host n (Suc k) rest)) ! i =
      (snd (capture_entry e host (Suc k + i) (rest ! i) (the (fileName (ctx (rest ! i))))),
       Suc (Suc k + i) = n,
       relative e (publicDir e) (entry_filename e (the (fileName (ctx (rest ! i)))))))"
    by simp
  note eq = drain_report_lines_Cons [OF f, of e host n k rest]
  show ?case
  proof (intro conjI allI impI)
    show "length (report_lines (fst (drain e host n k (entry # rest)))) = length (entry # rest)"
      using eq ih by simp
  next
    fix i assume "i < length (entry # rest)"
    then show "report_lines (fst (drain e host n k (entry # rest))) ! i =
      (snd (capture_entry e host (k + i) ((entry # rest) ! i) (the (fileName (ctx ((entry # rest) ! i))))),
       Suc (k + i) = n,
       relative e (publicDir e) (entry_filename e (the (fileName (ctx ((entry # rest) ! i))))))"
      using eq ih f by (cases i) auto
  qed
qed

lemma settle_fields:
  "trace (settle e queue r) = Spawn ''npx'' [''serve'', publicDir e] # fst r"
  "outcome (settle e queue r) = (case snd r of None \<Rightarrow> Fulfilled | Some err \<Rightarrow> Failed err)"
  "queue_after (settle e queue r) = (case snd r of None \<Rightarrow> [] | Some err \<Rightarrow> queue)"
  by (cases r; cases "snd r"; simp add: settle_def)+

lemma catch_finally_parts:
  "fst (catch_finally e (effs, b, err)) =
     effs @ (case err of None \<Rightarrow> [] | Some x \<Rightarrow> [ConsoleError x]) @ fst (finally_block e b)"
  "snd (catch_finally e (effs, b, err)) = snd (finally_block e b)"
  by (simp_all add: catch_finally_def)

lemma finally_block_parts:
  "fst (finally_block e True) = (case browser_close e of None \<Rightarrow> [BrowserClose, Kill] | Some err \<Rightarrow> [BrowserClose])"
  "snd (finally_block e True) = browser_close e"
  "finally_block e False = ([Kill], None)"
  by (simp_all add: finally_block_def split: option.splits)

lemma try_body_cases:
  "try_body e queue v =
     (case v of
        JStr s \<Rightarrow>
          (case createBrowser e of
             BrowserThrows err \<Rightarrow> ([CreateBrowser], False, Some err)
           | BrowserNull \<Rightarrow> ([CreateBrowser, LogBrowserFailed], False, None)
           | BrowserOk \<Rightarrow>
               ([CreateBrowser,
                 LoggerInfo (''Pre-rendering '' @ digits (length queue) @ '' og:image screenshots...'')]
                @ fst (drain e (trim s) (length queue) 0 queue), True,
                snd (drain e (trim s) (length queue) 0 queue)))
      | _ \<Rightarrow> ([], False, Some TypeError))"
  by (simp add: try_body_def split: jsval.splits browser_launch.splits prod.splits)

lemma capture_run:
  "captureScreenshots e queue =
     (if queue = [] then \<lparr> trace = [], queue_after = [], outcome = Fulfilled \<rparr>
      else case server_ready e of
             Pending \<Rightarrow>
               \<lparr> trace = [Spawn ''npx'' [''serve'', publicDir e]], queue_after = queue,
                 outcome = Suspended \<rparr>
           | Rejected err \<Rightarrow> settle e queue (catch_finally e ([], False, Some err))
           | Resolved v \<Rightarrow> settle e queue (catch_finally e (try_body e queue v)))"
  by (simp add: captureScreenshots_def)

lemma trace_run:
  "trace (captureScreenshots e queue) =
     (if queue = [] then []
      else case server_ready e of
             Pending \<Rightarrow> [Spawn ''npx'' [''serve'', publicDir e]]
           | Rejected err \<Rightarrow> [Spawn ''npx'' [''serve'', publicDir e], ConsoleError err, Kill]
           | Resolved v \<Rightarrow>
               Spawn ''npx'' [''serve'', publicDir e] # fst (catch_finally e (try_body e queue v)))"
  by (simp add: capture_run settle_fields catch_finally_parts finally_block_parts split: promise.splits)

lemma outcome_run:
  "outcome (captureScreenshots e queue) =
     (if queue = [] then Fulfilled
      else case server_ready e of
             Pending \<Rightarrow> Suspended
           | Rejected err \<Rightarrow> Fulfilled
           | Resolved v \<Rightarrow>
               (case snd (catch_finally e (try_body e queue v)) of
                  None \<Rightarrow> Fulfilled | Some err \<Rightarrow> Failed err))"
  by (simp add: capture_run settle_fields catch_finally_parts finally_block_parts split: promise.splits)

lemma queue_after_run:
  "queue_after (captureScreenshots e queue) =
     (if queue = [] then []
      else case server_ready e of
             Pending \<Rightarrow> queue
           | Rejected err \<Rightarrow> []
           | Resolved v \<Rightarrow>
               (case snd (catch_finally e (try_body e queue v)) of
                  None \<Rightarrow> [] | Some err \<Rightarrow> queue))"
  by (simp add: capture_run settle_fields catch_finally_parts finally_block_parts split: promise.splits)

lemma try_body_ok:
  "createBrowser e = BrowserOk \<Longrightarrow>
   try_body e queue (JStr s) =
     ([CreateBrowser,
       LoggerInfo (''Pre-rendering '' @ digits (length queue) @ '' og:image screenshots...'')]
      @ fst (drain e (trim s) (length queue) 0 queue), True,
      snd (drain e (trim s) (length queue) 0 queue))"
  by (simp add: try_body_cases)

lemma try_body_no_browser:
  "createBrowser e \<noteq> BrowserOk \<Longrightarrow>
   captures (fst (try_body e queue v)) = [] \<and> report_lines (fst (try_body e queue v)) = []
   \<and> fst (snd (try_body e queue v)) = False"
  by (cases v; cases "createBrowser e") (simp_all add: try_body_cases)

lemma trace_drained:
  assumes "queue \<noteq> []" and "server_ready e = Resolved (JStr s)" and "createBrowser e = BrowserOk"
  shows "trace (captureScreenshots e queue) =
           [Spawn ''npx'' [''serve'', publicDir e], CreateBrowser,
            LoggerInfo (''Pre-rendering '' @ digits (length queue) @ '' og:image screenshots...'')]
           @ fst (drain e (trim s) (length queue) 0 queue)
           @ (case snd (drain e (trim s) (length queue) 0 queue) of None \<Rightarrow> [] | Some x \<Rightarrow> [ConsoleError x])
           @ (case browser_close e of None \<Rightarrow> [BrowserClose, Kill] | Some err \<Rightarrow> [BrowserClose])"
  using assms
  by (simp add: trace_run try_body_ok catch_finally_parts finally_block_parts)

lemma outcome_drained:
  assumes "queue \<noteq> []" and "server_ready e = Resolved (JStr s)" and "createBrowser e = BrowserOk"
  shows "outcome (captureScreenshots e queue) =
           (case browser_close e of None \<Rightarrow> Fulfilled | Some err \<Rightarrow> Failed err)"
  using assms
  by (simp add: outcome_run try_body_ok catch_finally_parts finally_block_parts)

lemma captures_catch_finally:
  "captures (fst (catch_finally e r)) = captures (fst r)"
  "report_lines (fst (catch_finally e r)) = report_lines (fst r)"
  by (cases r; cases "fst (snd r)";
      simp add: catch_finally_parts finally_block_parts captures_append report_lines_append
           split: option.splits)+

lemma no_browser_no_capture:
  assumes "createBrowser e \<noteq> BrowserOk"
  shows "captures (trace (captureScreenshots e queue)) = [] \<and>
         report_lines (trace (captureScreenshots e queue)) = []"
  using try_body_no_browser [OF assms]
  by (simp add: trace_run captures_catch_finally split: promise.splits)

lemma suspended_iff:
  "(outcome (captureScreenshots e queue) = Suspended) = (queue \<noteq> [] \<and> server_ready e = Pending)"
  by (simp add: outcome_run split: promise.splits option.splits)

text \<open>
  What holds of the resources in every call: each is created at most once and released
  at most once, and a call that fulfils has killed every process it spawned.
\<close>

lemma lifecycle_try:
  "filter lifecycle (fst (catch_finally e (try_body e queue v))) =
     (case v of
        JStr s \<Rightarrow>
          (case createBrowser e of
             BrowserOk \<Rightarrow>
               (case browser_close e of
                  None \<Rightarrow> [CreateBrowser, BrowserClose, Kill]
                | Some err \<Rightarrow> [CreateBrowser, BrowserClose])
           | BrowserNull \<Rightarrow> [CreateBrowser, Kill]
           | BrowserThrows err \<Rightarrow> [CreateBrowser, Kill])
      | _ \<Rightarrow> [Kill])"
  by (cases v; cases "createBrowser e")
     (simp_all add: try_body_cases catch_finally_parts finally_block_parts drain_lifecycle
        split: option.splits)

lemma count_lifecycle:
  "lifecycle x \<Longrightarrow> count_list (filter lifecycle t) x = count_list t x"
  by (induction t) auto

lemma spawn_lifecycle:
  "length (filter is_spawn (filter lifecycle t)) = length (filter is_spawn t)"
proof (induction t)
  case Nil
  then show ?case by simp
next
  case (Cons x t)
  then show ?case by (cases x) simp_all
qed

lemma resources_at_most_once:
  "length (filter is_spawn (trace (captureScreenshots e queue))) \<le> 1
   \<and> count_list (trace (captureScreenshots e queue)) CreateBrowser \<le> 1
   \<and> count_list (trace (captureScreenshots e queue)) BrowserClose \<le> 1
   \<and> count_list (trace (captureScreenshots e queue)) Kill \<le> 1
   \<and> (outcome (captureScreenshots e queue) = Fulfilled \<longrightarrow>
        count_list (trace (captureScreenshots e queue)) Kill
          = length (filter is_spawn (trace (captureScreenshots e queue))))"
proof -
  let ?t = "trace (captureScreenshots e queue)"
  have c: "count_list ?t CreateBrowser = count_list (filter lifecycle ?t) CreateBrowser"
          "count_list ?t BrowserClose = count_list (filter lifecycle ?t) BrowserClose"
          "count_list ?t Kill = count_list (filter lifecycle ?t) Kill"
    by (simp_all add: count_lifecycle)
  have s: "length (filter is_spawn ?t) = length (filter is_spawn (filter lifecycle ?t))"
    by (rule spawn_lifecycle [symmetric])
  have f: "filter lifecycle ?t =
     (if queue = [] then []
      else case server_ready e of
             Pending \<Rightarrow> [Spawn ''npx'' [''serve'', publicDir e]]
           | Rejected err \<Rightarrow> [Spawn ''npx'' [''serve'', publicDir e], Kill]
           | Resolved v \<Rightarrow>
               Spawn ''npx'' [''serve'', publicDir e]
                 # filter lifecycle (fst (catch_finally e (try_body e queue v))))"
    by (simp add: trace_run split: promise.splits)
  show ?thesis
  proof (cases "queue = []")
    case True
    then show ?thesis
      unfolding c s f by simp
  next
    case False
    show ?thesis
    proof (cases "server_ready e")
      case Pending
      with False show ?thesis
        unfolding c s f by (simp add: outcome_run)
    next
      case (Rejected err)
      with False show ?thesis
        unfolding c s f by (simp add: outcome_run)
    next
      case (Resolved v)
      with False show ?thesis
        unfolding c s f lifecycle_try
        by (cases v; cases "createBrowser e"; cases "browser_close e")
           (simp_all add: outcome_run try_body_cases catch_finally_parts finally_block_parts)
    qed
  qed
qed

lemma hook_on_empty_queue:
  "call_hook e h [] = \<lparr> trace = [], queue_after = [], outcome = Fulfilled \<rparr>"
  by (cases h) (simp_all add: call_hook_def captureScreenshots_def)

lemma queue_reset_when_fulfilled:
  assumes "\<not> dev e" and "outcome (call_hook e h queue) = Fulfilled"
  shows "queue_after (call_hook e h queue) = []"
proof -
  from assms(1) have c: "call_hook e h queue = captureScreenshots e queue"
    by (cases h) (simp_all add: call_hook_def)
  from assms(2) show ?thesis
    unfolding c by (simp add: outcome_run queue_after_run split: if_splits promise.splits option.splits)
qed

lemma wait_ready_find:
  "wait_ready evs =
     (case find (\<lambda>d. includes_str d ''Accepting connections at'') (data_chunks evs) of
        None \<Rightarrow> Pending
      | Some d \<Rightarrow> Resolved (at_index (split_str d ''Accepting connections at '') 1))"
  by (induction evs rule: wait_ready.induct) simp_all

section \<open>What defu does to one property\<close>













lemma leaves_field_nullish: "nullish x \<Longrightarrow> leaves_field k x"
  by (auto simp: leaves_field_def nullish_def)









section \<open>The order of the matcher's list\<close>










section \<open>Eligibility of a page\<close>

text \<open>
  C1. The hook appends an entry to the queue only if the effective options of the page,
  the object built from the route, the directive and the merged route-rule override,
  have \<^verbatim>\<open>provider\<close> equal to \<^verbatim>\<open>'browser'\<close> and the run is a generate run or their
  \<^verbatim>\<open>static\<close> property holds (is truthy, as the condition of the source tests it). When
  the queue changes, it is by that one entry at its end; a page that fails the
  condition leaves the queue as it was.
\<close>

theorem queued_only_if_browser_and_static_or_generate:
  assumes "screenshotQueue (prerender_generate e c queue) \<noteq> queue"
  shows "\<exists>html x options.
           contents c = Some html \<and> extractOgImageOptions e html = Inr x \<and>
           options = build_options (c \<lparr> contents := Some (stripOgImageOptions e html) \<rparr>) x
                       (routeRules e (route c)) \<and>
           screenshotQueue (prerender_generate e c queue) = queue @ [options] \<and>
           opt_get options ''provider'' = JStr ''browser'' \<and>
           (nuxt_generate e \<or> truthy (opt_get options ''static''))"
  using assms
  by (auto simp: prerender_generate_def Let_def split: if_splits option.splits sum.splits)

theorem queued_only_if_browser_and_static_or_generate_witness:
  "screenshotQueue (prerender_generate sample_env (sample_page ''/a'' ''<og>1</og><p>x</p>'') []) \<noteq> []
   \<and> (\<exists>html x options.
         contents (sample_page ''/a'' ''<og>1</og><p>x</p>'') = Some html \<and>
         extractOgImageOptions sample_env html = Inr x \<and>
         options = build_options
                     ((sample_page ''/a'' ''<og>1</og><p>x</p>'')
                        \<lparr> contents := Some (stripOgImageOptions sample_env html) \<rparr>) x
                     (routeRules sample_env (route (sample_page ''/a'' ''<og>1</og><p>x</p>''))) \<and>
         screenshotQueue (prerender_generate sample_env (sample_page ''/a'' ''<og>1</og><p>x</p>'') [])
           = [] @ [options] \<and>
         opt_get options ''provider'' = JStr ''browser'' \<and>
         (nuxt_generate sample_env \<or> truthy (opt_get options ''static'')))"
proof -
  have h: "screenshotQueue (prerender_generate sample_env (sample_page ''/a'' ''<og>1</og><p>x</p>'') []) \<noteq> []"
    by code_simp
  from h queued_only_if_browser_and_static_or_generate [OF h] show ?thesis
    by (rule conjI)
qed

text \<open>
  C2. When the merged route rules of a route have \<^verbatim>\<open>ogImage === false\<close>, the hook
  leaves the queue as it was, whatever the extractor found in the page.
\<close>

theorem suppression_never_queued:
  assumes "js_get (routeRules e (route c)) ''ogImage'' = JBool False"
  shows "screenshotQueue (prerender_generate e c queue) = queue"
  using assms
  by (auto simp: prerender_generate_def Let_def split: if_splits option.splits sum.splits)

theorem suppression_never_queued_witness:
  "js_get (routeRules (sample_env \<lparr> nuxt_generate := True \<rparr>)
       (route (sample_page ''/hidden'' ''<og>1</og><p>x</p>''))) ''ogImage'' = JBool False
   \<and> truthy (projr (extractOgImageOptions (sample_env \<lparr> nuxt_generate := True \<rparr>) ''<og>1</og><p>x</p>''))
   \<and> screenshotQueue (prerender_generate (sample_env \<lparr> nuxt_generate := True \<rparr>)
         (sample_page ''/hidden'' ''<og>1</og><p>x</p>'') []) = []"
proof -
  have h: "js_get (routeRules (sample_env \<lparr> nuxt_generate := True \<rparr>)
       (route (sample_page ''/hidden'' ''<og>1</og><p>x</p>''))) ''ogImage'' = JBool False"
    by code_simp
  have d: "truthy (projr (extractOgImageOptions (sample_env \<lparr> nuxt_generate := True \<rparr>) ''<og>1</og><p>x</p>''))"
    by code_simp
  from h d suppression_never_queued [OF h] show ?thesis
    by blast
qed

text \<open>
  C9. When the extractor returns no directive for the contents of a page (a falsy
  value), the hook leaves the queue as it was, whatever the route rules of the page
  are: an override in the route rules alone never queues a page.
\<close>

theorem no_directive_never_queued:
  assumes "contents c = Some html"
    and "extractOgImageOptions e html = Inr x"
    and "\<not> truthy x"
  shows "screenshotQueue (prerender_generate e c queue) = queue"
  using assms
  by (auto simp: prerender_generate_def Let_def split: if_splits option.splits sum.splits)

theorem no_directive_never_queued_witness:
  "contents (sample_page ''/shop'' ''<p>x</p>'') = Some ''<p>x</p>''
   \<and> extractOgImageOptions (sample_env \<lparr> nuxt_generate := True \<rparr>) ''<p>x</p>'' = Inr (JBool False)
   \<and> \<not> truthy (JBool False)
   \<and> js_get (routeRules (sample_env \<lparr> nuxt_generate := True \<rparr>) ''/shop'') ''ogImage''
       = JObj [(''provider'', JStr ''browser''), (''static'', JBool True)]
   \<and> screenshotQueue (prerender_generate (sample_env \<lparr> nuxt_generate := True \<rparr>)
         (sample_page ''/shop'' ''<p>x</p>'') []) = []"
proof -
  have h1: "contents (sample_page ''/shop'' ''<p>x</p>'') = Some ''<p>x</p>''"
    by (simp add: sample_page_def)
  have h2: "extractOgImageOptions (sample_env \<lparr> nuxt_generate := True \<rparr>) ''<p>x</p>'' = Inr (JBool False)"
    by code_simp
  have h3: "\<not> truthy (JBool False)"
    by simp
  have r: "js_get (routeRules (sample_env \<lparr> nuxt_generate := True \<rparr>) ''/shop'') ''ogImage''
       = JObj [(''provider'', JStr ''browser''), (''static'', JBool True)]"
    by code_simp
  from h1 h2 h3 r no_directive_never_queued [OF h1 h2 h3] show ?thesis
    by blast
qed

text \<open>
  C10, as stated: for every document route with non-empty contents the hook writes the
  stripped markup back to the render context. It fails on a page whose payload the
  extractor cannot parse: the extractor is called first and throws, and the hook leaves
  with the contents as they were.
\<close>

theorem strip_skipped_when_extractor_throws:
  "\<not> includes_str (route (sample_page ''/bad'' ''<og>{</og><p>x</p>'')) ''.''
   \<and> \<not> ends_with (route (sample_page ''/bad'' ''<og>{</og><p>x</p>'')) ''__og_image__/html''
   \<and> contents (sample_page ''/bad'' ''<og>{</og><p>x</p>'') = Some ''<og>{</og><p>x</p>''
   \<and> ''<og>{</og><p>x</p>'' \<noteq> []
   \<and> contents (ctx_after (prerender_generate sample_env (sample_page ''/bad'' ''<og>{</og><p>x</p>'') []))
       = Some ''<og>{</og><p>x</p>''
   \<and> contents (ctx_after (prerender_generate sample_env (sample_page ''/bad'' ''<og>{</og><p>x</p>'') []))
       \<noteq> Some (stripOgImageOptions sample_env ''<og>{</og><p>x</p>'')"
  by code_simp

text \<open>
  C10, amended. For every document route with non-empty contents on which the extractor
  does not throw, the contents of the render context after the hook are the stripped
  markup, whether the page is then suppressed by a route rule, has no directive, is not
  queued for its provider or is queued: the write happens before the eligibility
  decision. For every such route on which the extractor throws, the hook ends with
  that error before the write: the render context is unchanged, so its contents are the
  markup as rendered, and nothing is queued.
\<close>

theorem stripped_before_eligibility:
  assumes "\<not> includes_str (route c) ''.''"
    and "\<not> ends_with (route c) ''__og_image__/html''"
    and "contents c = Some html"
    and "html \<noteq> []"
  shows "(extractOgImageOptions e html = Inr x \<longrightarrow>
            contents (ctx_after (prerender_generate e c queue)) = Some (stripOgImageOptions e html)
            \<and> thrown (prerender_generate e c queue) = None)
         \<and> (extractOgImageOptions e html = Inl err \<longrightarrow>
            ctx_after (prerender_generate e c queue) = c
            \<and> contents (ctx_after (prerender_generate e c queue)) = Some html
            \<and> screenshotQueue (prerender_generate e c queue) = queue
            \<and> thrown (prerender_generate e c queue) = Some err)"
  using assms
  by (auto simp: prerender_generate_def Let_def split: if_splits option.splits sum.splits)

theorem stripped_before_eligibility_witness:
  "\<not> includes_str (route (sample_page ''/hidden'' ''<og>1</og><p>x</p>'')) ''.''
   \<and> \<not> ends_with (route (sample_page ''/hidden'' ''<og>1</og><p>x</p>'')) ''__og_image__/html''
   \<and> contents (sample_page ''/hidden'' ''<og>1</og><p>x</p>'') = Some ''<og>1</og><p>x</p>''
   \<and> ''<og>1</og><p>x</p>'' \<noteq> []
   \<and> extractOgImageOptions sample_env ''<og>1</og><p>x</p>''
       = Inr (JObj [(''provider'', JStr ''browser''), (''static'', JBool True)])
   \<and> contents (ctx_after (prerender_generate sample_env (sample_page ''/hidden'' ''<og>1</og><p>x</p>'') []))
       = Some (stripOgImageOptions sample_env ''<og>1</og><p>x</p>'')
   \<and> thrown (prerender_generate sample_env (sample_page ''/hidden'' ''<og>1</og><p>x</p>'') []) = None
   \<and> \<not> includes_str (route (sample_page ''/bad'' ''<og>{</og><p>x</p>'')) ''.''
   \<and> \<not> ends_with (route (sample_page ''/bad'' ''<og>{</og><p>x</p>'')) ''__og_image__/html''
   \<and> contents (sample_page ''/bad'' ''<og>{</og><p>x</p>'') = Some ''<og>{</og><p>x</p>''
   \<and> ''<og>{</og><p>x</p>'' \<noteq> []
   \<and> extractOgImageOptions sample_env ''<og>{</og><p>x</p>'' = Inl (Thrown ''SyntaxError'')
   \<and> ctx_after (prerender_generate sample_env (sample_page ''/bad'' ''<og>{</og><p>x</p>'') [sample_entry ''/a''])
       = sample_page ''/bad'' ''<og>{</og><p>x</p>''
   \<and> screenshotQueue (prerender_generate sample_env (sample_page ''/bad'' ''<og>{</og><p>x</p>'') [sample_entry ''/a''])
       = [sample_entry ''/a'']
   \<and> thrown (prerender_generate sample_env (sample_page ''/bad'' ''<og>{</og><p>x</p>'') [sample_entry ''/a''])
       = Some (Thrown ''SyntaxError'')"
proof -
  have h1: "\<not> includes_str (route (sample_page ''/hidden'' ''<og>1</og><p>x</p>'')) ''.''"
    by code_simp
  have h2: "\<not> ends_with (route (sample_page ''/hidden'' ''<og>1</og><p>x</p>'')) ''__og_image__/html''"
    by code_simp
  have h3: "contents (sample_page ''/hidden'' ''<og>1</og><p>x</p>'') = Some ''<og>1</og><p>x</p>''"
    by (simp add: sample_page_def)
  have h4: "''<og>1</og><p>x</p>'' \<noteq> []"
    by simp
  have h5: "extractOgImageOptions sample_env ''<og>1</og><p>x</p>''
       = Inr (JObj [(''provider'', JStr ''browser''), (''static'', JBool True)])"
    by code_simp
  have g1: "\<not> includes_str (route (sample_page ''/bad'' ''<og>{</og><p>x</p>'')) ''.''"
    by code_simp
  have g2: "\<not> ends_with (route (sample_page ''/bad'' ''<og>{</og><p>x</p>'')) ''__og_image__/html''"
    by code_simp
  have g3: "contents (sample_page ''/bad'' ''<og>{</og><p>x</p>'') = Some ''<og>{</og><p>x</p>''"
    by (simp add: sample_page_def)
  have g4: "''<og>{</og><p>x</p>'' \<noteq> []"
    by simp
  have g5: "extractOgImageOptions sample_env ''<og>{</og><p>x</p>'' = Inl (Thrown ''SyntaxError'')"
    by code_simp
  note parsed = stripped_before_eligibility [OF h1 h2 h3 h4, of sample_env
    "JObj [(''provider'', JStr ''browser''), (''static'', JBool True)]" "[]"]
  note threw = stripped_before_eligibility [OF g1 g2 g3 g4, of sample_env _ "[sample_entry ''/a'']"
    "Thrown ''SyntaxError''"]
  from h1 h2 h3 h4 h5 g1 g2 g3 g4 g5 parsed threw show ?thesis
    by blast
qed

section \<open>The batch\<close>

text \<open>
  C3, as stated: in every run the captures attempted and the report lines follow the
  queue, with no entry skipped. It fails in a run whose browser launch returns no
  browser: the queue holds an entry, the run ends and empties the queue, and no
  capture is attempted and no report line is written.
\<close>

theorem entries_skipped_without_browser:
  "captures (trace (captureScreenshots (sample_env \<lparr> createBrowser := BrowserNull \<rparr>) [sample_entry ''/a''])) = []
   \<and> report_lines (trace (captureScreenshots (sample_env \<lparr> createBrowser := BrowserNull \<rparr>) [sample_entry ''/a''])) = []
   \<and> outcome (captureScreenshots (sample_env \<lparr> createBrowser := BrowserNull \<rparr>) [sample_entry ''/a'']) = Fulfilled
   \<and> queue_after (captureScreenshots (sample_env \<lparr> createBrowser := BrowserNull \<rparr>) [sample_entry ''/a'']) = []"
  by code_simp

text \<open>
  C3, amended. In every run in which the server wait resolves with a string, the
  browser is launched and every queued entry has the file name of its page, the
  captures attempted are those of the queue's entries, one per entry in enqueue order
  (the URL is the trimmed origin followed by the entry's path), and the report lines
  are those of the same entries in the same order. In every run whose browser launch
  yields no browser (it returns none or throws), no capture is attempted and no report
  line is written.
\<close>

theorem drained_in_enqueue_order:
  "(server_ready e = Resolved (JStr s) \<and> createBrowser e = BrowserOk
      \<and> (\<forall>entry\<in>set queue. fileName (ctx entry) \<noteq> None) \<longrightarrow>
      captures (trace (captureScreenshots e queue))
        = map (\<lambda>entry. (entry_url (trim s) entry, screenshot_options e entry)) queue
      \<and> map (\<lambda>line. snd (snd line)) (report_lines (trace (captureScreenshots e queue)))
        = map (\<lambda>entry. relative e (publicDir e) (entry_filename e (the (fileName (ctx entry))))) queue)
   \<and> (createBrowser e \<noteq> BrowserOk \<longrightarrow>
      captures (trace (captureScreenshots e queue)) = []
      \<and> report_lines (trace (captureScreenshots e queue)) = [])"
proof -
  have drained: "server_ready e = Resolved (JStr s) \<and> createBrowser e = BrowserOk
      \<and> (\<forall>entry\<in>set queue. fileName (ctx entry) \<noteq> None) \<longrightarrow>
      captures (trace (captureScreenshots e queue))
        = map (\<lambda>entry. (entry_url (trim s) entry, screenshot_options e entry)) queue
      \<and> map (\<lambda>line. snd (snd line)) (report_lines (trace (captureScreenshots e queue)))
        = map (\<lambda>entry. relative e (publicDir e) (entry_filename e (the (fileName (ctx entry))))) queue"
  proof (rule impI)
    assume a: "server_ready e = Resolved (JStr s) \<and> createBrowser e = BrowserOk
        \<and> (\<forall>entry\<in>set queue. fileName (ctx entry) \<noteq> None)"
    then have a1: "server_ready e = Resolved (JStr s)" and a2: "createBrowser e = BrowserOk"
      and a3: "\<forall>entry\<in>set queue. fileName (ctx entry) \<noteq> None"
      by simp_all
    show "captures (trace (captureScreenshots e queue))
          = map (\<lambda>entry. (entry_url (trim s) entry, screenshot_options e entry)) queue
        \<and> map (\<lambda>line. snd (snd line)) (report_lines (trace (captureScreenshots e queue)))
          = map (\<lambda>entry. relative e (publicDir e) (entry_filename e (the (fileName (ctx entry))))) queue"
    proof (cases "queue = []")
      case True
      then show ?thesis
        by (simp add: captureScreenshots_def)
    next
      case False
      let ?d = "drain e (trim s) (length queue) 0 queue"
      have t: "trace (captureScreenshots e queue) =
               [Spawn ''npx'' [''serve'', publicDir e], CreateBrowser,
                LoggerInfo (''Pre-rendering '' @ digits (length queue) @ '' og:image screenshots...'')]
               @ fst ?d
               @ (case browser_close e of None \<Rightarrow> [BrowserClose, Kill] | Some err \<Rightarrow> [BrowserClose])"
        using trace_drained [OF False a1 a2] drain_no_error [OF a3]
        by simp
      have c: "captures (trace (captureScreenshots e queue)) = captures (fst ?d)"
        unfolding t by (simp add: captures_append split: option.splits)
      have r: "report_lines (trace (captureScreenshots e queue)) = report_lines (fst ?d)"
        unfolding t by (simp add: report_lines_append split: option.splits)
      note rl = drain_report_lines [OF a3, of e "trim s" "length queue" 0]
      have "map (\<lambda>line. snd (snd line)) (report_lines (fst ?d))
               = map (\<lambda>entry. relative e (publicDir e) (entry_filename e (the (fileName (ctx entry))))) queue"
        using rl by (intro nth_equalityI) simp_all
      then show ?thesis
        using c r drain_captures [OF a3] by simp
    qed
  qed
  have skipped: "createBrowser e \<noteq> BrowserOk \<longrightarrow>
      captures (trace (captureScreenshots e queue)) = []
      \<and> report_lines (trace (captureScreenshots e queue)) = []"
    by (simp add: no_browser_no_capture)
  from drained skipped show ?thesis
    by (rule conjI)
qed

theorem drained_in_enqueue_order_witness:
  "server_ready sample_env = Resolved (JStr ''http://localhost:3000'')
   \<and> createBrowser sample_env = BrowserOk
   \<and> list_all (\<lambda>entry. fileName (ctx entry) \<noteq> None) sample_queue
   \<and> captures (trace (captureScreenshots sample_env sample_queue))
       = map (\<lambda>entry. (entry_url (trim ''http://localhost:3000'') entry,
                        screenshot_options sample_env entry)) sample_queue
   \<and> map (\<lambda>line. snd (snd line)) (report_lines (trace (captureScreenshots sample_env sample_queue)))
       = map (\<lambda>entry. relative sample_env (publicDir sample_env)
                        (entry_filename sample_env (the (fileName (ctx entry))))) sample_queue
   \<and> createBrowser (sample_env \<lparr> createBrowser := BrowserThrows (Thrown ''no chrome'') \<rparr>) \<noteq> BrowserOk
   \<and> captures (trace (captureScreenshots
        (sample_env \<lparr> createBrowser := BrowserThrows (Thrown ''no chrome'') \<rparr>) sample_queue)) = []
   \<and> report_lines (trace (captureScreenshots
        (sample_env \<lparr> createBrowser := BrowserThrows (Thrown ''no chrome'') \<rparr>) sample_queue)) = []"
proof -
  have h1: "server_ready sample_env = Resolved (JStr ''http://localhost:3000'')"
    by code_simp
  have h2: "createBrowser sample_env = BrowserOk"
    by code_simp
  have h3: "\<forall>entry\<in>set sample_queue. fileName (ctx entry) \<noteq> None"
    by code_simp
  have h3': "list_all (\<lambda>entry. fileName (ctx entry) \<noteq> None) sample_queue"
    using h3 by (simp add: list_all_iff)
  have h4: "createBrowser (sample_env \<lparr> createBrowser := BrowserThrows (Thrown ''no chrome'') \<rparr>) \<noteq> BrowserOk"
    by simp
  note ok = drained_in_enqueue_order [of sample_env "''http://localhost:3000''" sample_queue]
  note none = drained_in_enqueue_order
    [of "sample_env \<lparr> createBrowser := BrowserThrows (Thrown ''no chrome'') \<rparr>" "[]" sample_queue]
  from h1 h2 h3 h3' h4 ok none show ?thesis
    by blast
qed

text \<open>
  C4. In a run that reaches the loop (the server wait resolved with a string, the
  browser was launched, every entry has its file name), an entry whose capture or
  whose write throws does not stop the batch: there is one report line per queued
  entry, the line of entry \<open>i\<close> is marked as failed exactly when the capture of entry
  \<open>i\<close> threw or its write threw, a capture is attempted for every entry, and the call
  ends after the loop (it fulfils, or fails with the error of the browser close when
  that rejects in the \<^verbatim>\<open>finally\<close> block). On the sample queue, whose second capture
  throws, the marks are success, failure, success.
\<close>

theorem failure_isolated:
  assumes "server_ready e = Resolved (JStr s)"
    and "createBrowser e = BrowserOk"
    and "\<forall>entry\<in>set queue. fileName (ctx entry) \<noteq> None"
  shows "length (report_lines (trace (captureScreenshots e queue))) = length queue
         \<and> (\<forall>i<length queue.
               fst (report_lines (trace (captureScreenshots e queue)) ! i)
                 = (case screenshot e i (entry_url (trim s) (queue ! i)) (screenshot_options e (queue ! i)) of
                      Inl err \<Rightarrow> True
                    | Inr img \<Rightarrow>
                        writeFile e i (entry_filename e (the (fileName (ctx (queue ! i))))) img \<noteq> None))
         \<and> length (captures (trace (captureScreenshots e queue))) = length queue
         \<and> outcome (captureScreenshots e queue)
             = (case browser_close e of
                  None \<Rightarrow> Fulfilled
                | Some err \<Rightarrow> if queue = [] then Fulfilled else Failed err)"
proof (cases "queue = []")
  case True
  then show ?thesis
    by (simp add: captureScreenshots_def split: option.splits)
next
  case False
  let ?d = "drain e (trim s) (length queue) 0 queue"
  have t: "trace (captureScreenshots e queue) =
           [Spawn ''npx'' [''serve'', publicDir e], CreateBrowser,
            LoggerInfo (''Pre-rendering '' @ digits (length queue) @ '' og:image screenshots...'')]
           @ fst ?d
           @ (case browser_close e of None \<Rightarrow> [BrowserClose, Kill] | Some err \<Rightarrow> [BrowserClose])"
    using trace_drained [OF False assms(1) assms(2)] drain_no_error [OF assms(3)]
    by simp
  have c: "captures (trace (captureScreenshots e queue)) = captures (fst ?d)"
    unfolding t by (simp add: captures_append split: option.splits)
  have r: "report_lines (trace (captureScreenshots e queue)) = report_lines (fst ?d)"
    unfolding t by (simp add: report_lines_append split: option.splits)
  note rl = drain_report_lines [OF assms(3), of e "trim s" "length queue" 0]
  have ret: "outcome (captureScreenshots e queue)
             = (case browser_close e of
                  None \<Rightarrow> Fulfilled
                | Some err \<Rightarrow> if queue = [] then Fulfilled else Failed err)"
    using outcome_drained [OF False assms(1) assms(2)] False by (simp split: option.splits)
  show ?thesis
    using rl ret drain_captures [OF assms(3), of e "trim s" "length queue" 0]
    unfolding c r by (simp add: capture_entry_hasError)
qed

theorem failure_isolated_witness:
  "server_ready sample_env = Resolved (JStr ''http://localhost:3000'')
   \<and> createBrowser sample_env = BrowserOk
   \<and> list_all (\<lambda>entry. fileName (ctx entry) \<noteq> None) sample_queue
   \<and> length (report_lines (trace (captureScreenshots sample_env sample_queue))) = length sample_queue
   \<and> length (captures (trace (captureScreenshots sample_env sample_queue))) = length sample_queue
   \<and> outcome (captureScreenshots sample_env sample_queue) = Fulfilled
   \<and> length sample_queue = 3
   \<and> map fst (report_lines (trace (captureScreenshots sample_env sample_queue))) = [False, True, False]"
proof -
  have h1: "server_ready sample_env = Resolved (JStr ''http://localhost:3000'')"
    by code_simp
  have h2: "createBrowser sample_env = BrowserOk"
    by code_simp
  have h3: "\<forall>entry\<in>set sample_queue. fileName (ctx entry) \<noteq> None"
    by code_simp
  have h3': "list_all (\<lambda>entry. fileName (ctx entry) \<noteq> None) sample_queue"
    using h3 by (simp add: list_all_iff)
  have n: "length sample_queue = 3"
    by code_simp
  have m: "map fst (report_lines (trace (captureScreenshots sample_env sample_queue))) = [False, True, False]"
    by code_simp
  have b: "browser_close sample_env = None"
    by code_simp
  from failure_isolated [OF h1 h2 h3] b
  have "length (report_lines (trace (captureScreenshots sample_env sample_queue))) = length sample_queue
        \<and> length (captures (trace (captureScreenshots sample_env sample_queue))) = length sample_queue
        \<and> outcome (captureScreenshots sample_env sample_queue) = Fulfilled"
    by simp
  with h1 h2 h3' n m show ?thesis
    by blast
qed

text \<open>
  C5, on the code. The claim asks that the server process be killed on every exit path
  of the drain. The \<^verbatim>\<open>finally\<close> block is there for that, but it awaits
  \<^verbatim>\<open>browser?.close()\<close> before it calls \<^verbatim>\<open>previewProcess.kill()\<close>: in a run whose
  captures all succeed and whose browser close rejects, the process has been spawned
  once, the close has been called once, the call fails with the error of the close, and
  the process is never killed.
\<close>

theorem kill_skipped_when_close_rejects:
  "length (filter is_spawn (trace (captureScreenshots
       (sample_env \<lparr> screenshot := (\<lambda>k url opts. Inr ''png''),
                     browser_close := Some (Thrown ''Target closed'') \<rparr>) sample_queue))) = 1
   \<and> count_list (trace (captureScreenshots
       (sample_env \<lparr> screenshot := (\<lambda>k url opts. Inr ''png''),
                     browser_close := Some (Thrown ''Target closed'') \<rparr>) sample_queue)) BrowserClose = 1
   \<and> count_list (trace (captureScreenshots
       (sample_env \<lparr> screenshot := (\<lambda>k url opts. Inr ''png''),
                     browser_close := Some (Thrown ''Target closed'') \<rparr>) sample_queue)) Kill = 0
   \<and> outcome (captureScreenshots
       (sample_env \<lparr> screenshot := (\<lambda>k url opts. Inr ''png''),
                     browser_close := Some (Thrown ''Target closed'') \<rparr>) sample_queue)
       = Failed (Thrown ''Target closed'')"
  by code_simp

text \<open>
  C6, on the code. The claim asks that after any drain the queue be empty, so that the
  other hook does nothing. \<^verbatim>\<open>screenshotQueue = []\<close> comes after the \<^verbatim>\<open>try\<close> statement,
  whose \<^verbatim>\<open>finally\<close> block throws when the browser close rejects: the hook
  \<^verbatim>\<open>rollup:before\<close> then fails with the three entries still queued, and the hook
  \<^verbatim>\<open>close\<close>, fired afterwards, spawns a server again and captures the three entries a
  second time. (On an empty queue a hook does nothing, as the claim says.)
\<close>

theorem queue_kept_when_close_rejects:
  "outcome (call_hook (sample_env \<lparr> browser_close := Some (Thrown ''Target closed'') \<rparr>)
       RollupBefore sample_queue) = Failed (Thrown ''Target closed'')
   \<and> length (captures (trace (call_hook (sample_env \<lparr> browser_close := Some (Thrown ''Target closed'') \<rparr>)
       RollupBefore sample_queue))) = 3
   \<and> queue_after (call_hook (sample_env \<lparr> browser_close := Some (Thrown ''Target closed'') \<rparr>)
       RollupBefore sample_queue) = sample_queue
   \<and> length (filter is_spawn (trace (call_hook (sample_env \<lparr> browser_close := Some (Thrown ''Target closed'') \<rparr>)
       Close (queue_after (call_hook (sample_env \<lparr> browser_close := Some (Thrown ''Target closed'') \<rparr>)
         RollupBefore sample_queue))))) = 1
   \<and> length (captures (trace (call_hook (sample_env \<lparr> browser_close := Some (Thrown ''Target closed'') \<rparr>)
       Close (queue_after (call_hook (sample_env \<lparr> browser_close := Some (Thrown ''Target closed'') \<rparr>)
         RollupBefore sample_queue))))) = 3
   \<and> trace (call_hook (sample_env \<lparr> browser_close := Some (Thrown ''Target closed'') \<rparr>) Close []) = []"
  by code_simp

section \<open>The server wait\<close>

text \<open>
  C8, as stated: the wait rejects when the server process exits, or its output ends,
  without the ready line. It fails: after a chunk without the marker, the end of the
  output and the exit of the process, the promise is still pending, and the call of
  \<^verbatim>\<open>captureScreenshots\<close> that awaits it has spawned the process and never returns.
\<close>

theorem wait_pends_after_exit:
  "\<not> includes_str ''npm ERR! could not determine executable to run'' ''Accepting connections at''
   \<and> wait_ready [StdoutData ''npm ERR! could not determine executable to run'', StdoutEnd, ProcExit]
       = Pending
   \<and> server_ready (sample_env \<lparr> preview_stdout :=
         Some [StdoutData ''npm ERR! could not determine executable to run'', StdoutEnd, ProcExit] \<rparr>)
       = Pending
   \<and> outcome (captureScreenshots (sample_env \<lparr> preview_stdout :=
         Some [StdoutData ''npm ERR! could not determine executable to run'', StdoutEnd, ProcExit] \<rparr>)
         sample_queue) = Suspended
   \<and> trace (captureScreenshots (sample_env \<lparr> preview_stdout :=
         Some [StdoutData ''npm ERR! could not determine executable to run'', StdoutEnd, ProcExit] \<rparr>)
         sample_queue)
       = [Spawn ''npx'' [''serve'', ''/out'']]"
  by code_simp

text \<open>
  C8, amended. The wait resolves at the first output chunk that includes the marker
  \<^verbatim>\<open>Accepting connections at\<close>, with the second piece of that chunk split at
  \<^verbatim>\<open>'Accepting connections at '\<close> (the text after the marker, which the caller
  trims; \<^verbatim>\<open>undefined\<close> when no space follows the marker). When no chunk includes the
  marker it stays pending, whether or not the output has ended or the process has
  exited: it never rejects.
\<close>

theorem readiness_resolves_or_pends:
  "wait_ready evs =
     (case find (\<lambda>d. includes_str d ''Accepting connections at'') (data_chunks evs) of
        None \<Rightarrow> Pending
      | Some d \<Rightarrow> Resolved (at_index (split_str d ''Accepting connections at '') 1))
   \<and> wait_ready evs \<noteq> Rejected err
   \<and> server_ready e \<noteq> Rejected err"
  by (simp add: wait_ready_find server_ready_def split: option.splits)

section \<open>The cascade of the route rules\<close>




end
